theory Spec2Isabelle
  imports Complex_Main "HOL-Library.AList"
begin

section \<open>Kneser-Ney smoothing: the engine of \<open>KN_smoothing.py\<close>\<close>

text \<open>
  The embedding follows the class \<open>KneserNeySmoothing\<close> method by method.

  \<^item> A Python \<open>str\<close> is a \<open>string\<close>; a \<open>char\<close> stands for a code point below 256.
  \<^item> A Python \<open>int\<close> is an \<open>int\<close>.
  \<^item> A Python \<open>float\<close> is a \<open>rat\<close>: the operators \<open>/\<close>, \<open>*\<close>, \<open>+\<close>, \<open>-\<close> and \<open>max\<close>
    are the exact ones, so rounding, infinities and NaN are outside the model.
  \<^item> A \<open>Counter\<close> is an association list in insertion order, with distinct keys; reading a
    missing key gives 0 and stores nothing.
  \<^item> The \<open>defaultdict(Counter)\<close> is an association list too; reading a missing key stores
    an empty \<open>Counter\<close> under it, so every read returns the table as well.
  \<^item> An exception is a value \<open>Inl err\<close> of a sum type.
\<close>

subsection \<open>Exceptions and division\<close>

datatype error = ZeroDivisionError | IndexError

definition truediv :: "rat \<Rightarrow> rat \<Rightarrow> error + rat" where
  "truediv a b = (if b = 0 then Inl ZeroDivisionError else Inr (a / b))"

subsection \<open>Counter and defaultdict\<close>

type_synonym 'k counter = "('k \<times> int) list"

definition counter_get :: "'k counter \<Rightarrow> 'k \<Rightarrow> int" where
  "counter_get c k = (case map_of c k of None \<Rightarrow> 0 | Some v \<Rightarrow> v)"

text \<open>\<open>c[k] += 1\<close> on a \<open>Counter\<close>.\<close>

definition counter_incr :: "'k counter \<Rightarrow> 'k \<Rightarrow> 'k counter" where
  "counter_incr c k = AList.update k (counter_get c k + 1) c"

text \<open>\<open>c.update(iterable)\<close> on a \<open>Counter\<close>: one increment per element, in order.\<close>

definition counter_update :: "'k counter \<Rightarrow> 'k list \<Rightarrow> 'k counter" where
  "counter_update c ks = fold (\<lambda>k acc. counter_incr acc k) ks c"

type_synonym ('o, 'k) defaultdict = "('o \<times> 'k counter) list"

text \<open>\<open>d[k]\<close> on the \<open>defaultdict(Counter)\<close>: a missing key is stored with an empty counter.\<close>

definition dd_getitem :: "('o, 'k) defaultdict \<Rightarrow> 'o \<Rightarrow> 'k counter \<times> ('o, 'k) defaultdict" where
  "dd_getitem d k = (case map_of d k of
       Some c \<Rightarrow> (c, d)
     | None \<Rightarrow> ([], d @ [(k, [])]))"

text \<open>\<open>d[k][g] += 1\<close>: the counter stored under \<open>k\<close> is incremented in place.\<close>

definition dd_incr :: "('o, 'k) defaultdict \<Rightarrow> 'o \<Rightarrow> 'k \<Rightarrow> ('o, 'k) defaultdict" where
  "dd_incr d k g = (case dd_getitem d k of (c, d') \<Rightarrow> AList.update k (counter_incr c g) d')"

subsection \<open>Tokens and n-grams\<close>

text \<open>The code points below 256 for which \<open>str.isspace\<close> holds.\<close>

definition isspace :: "char \<Rightarrow> bool" where
  "isspace c = (of_char c \<in> {9, 10, 11, 12, 13, 28, 29, 30, 31, 32, 133, 160 :: nat})"

text \<open>\<open>s.split()\<close>: the maximal runs of non-space characters, in order.\<close>

fun split_from :: "string \<Rightarrow> string \<Rightarrow> string list" where
  "split_from cur [] = (if cur = [] then [] else [cur])"
| "split_from cur (c # cs) =
     (if isspace c then (if cur = [] then split_from [] cs else cur # split_from [] cs)
      else split_from (cur @ [c]) cs)"

definition str_split :: "string \<Rightarrow> string list" where
  "str_split s = split_from [] s"

text \<open>\<open>zip(*ls)\<close>: no tuple for no argument; otherwise tuples as long as no list is exhausted.\<close>

function zip_star :: "'a list list \<Rightarrow> 'a list list" where
  "zip_star ls =
     (if ls = [] \<or> [] \<in> set ls then [] else map hd ls # zip_star (map tl ls))"
  by pat_completeness auto
termination
proof (relation "measure (\<lambda>ls. length (hd ls))")
  show "wf (measure (\<lambda>ls :: 'a list list. length (hd ls)))"
    by simp
next
  fix ls :: "'a list list"
  assume "\<not> (ls = [] \<or> [] \<in> set ls)"
  then have "ls \<noteq> []" and "hd ls \<noteq> []"
    by (cases ls; simp; metis)+
  then show "(map tl ls, ls) \<in> measure (\<lambda>ls. length (hd ls))"
    by (simp add: hd_map)
qed

declare zip_star.simps [simp del]

text \<open>\<open>zip(*[tokens[i:] for i in range(n)])\<close>; \<open>range(n)\<close> is empty for \<open>n \<le> 0\<close>.\<close>

definition ngrams_of :: "int \<Rightarrow> 'a list \<Rightarrow> 'a list list" where
  "ngrams_of n tokens = zip_star (map (\<lambda>i. drop i tokens) [0..<nat n])"

subsection \<open>The engine and its construction\<close>

text \<open>The attributes of an instance; \<open>self_n\<close> is the attribute \<open>n\<close>.\<close>

record engine =
  self_n :: int
  descuento :: rat
  unigramCounts :: "string counter"
  ngramCounts :: "(int, string list) defaultdict"
  cuentasContinuacion :: "string list counter"
  cuentasContexto :: "string list counter"
  totalNgrams :: int
  totalUnigrams :: int

text \<open>The body of the inner loop of \<open>_calcularFrecuencias\<close>, for one n-gram.\<close>

definition contar_ngram :: "string list \<Rightarrow> engine \<Rightarrow> engine" where
  "contar_ngram ngram self =
     self\<lparr>ngramCounts := dd_incr (ngramCounts self) (int (length ngram)) ngram,
          totalNgrams := totalNgrams self + 1\<rparr>"

text \<open>The body of the outer loop of \<open>_calcularFrecuencias\<close>, for one sentence.\<close>

definition contar_oracion :: "string \<Rightarrow> engine \<Rightarrow> engine" where
  "contar_oracion oracion self =
     (let tokens = str_split oracion;
          self1 = self\<lparr>totalUnigrams := totalUnigrams self + int (length tokens)\<rparr>;
          self2 = self1\<lparr>unigramCounts := counter_update (unigramCounts self1) tokens\<rparr>
      in fold contar_ngram (ngrams_of (self_n self2) tokens) self2)"

definition calcularFrecuencias :: "engine \<Rightarrow> string list \<Rightarrow> engine" where
  "calcularFrecuencias self corpus = fold contar_oracion corpus self"

definition calcularCuentasContinuacion :: "engine \<Rightarrow> engine" where
  "calcularCuentasContinuacion self =
     (case dd_getitem (ngramCounts self) (self_n self) of (c, d) \<Rightarrow>
        self\<lparr>ngramCounts := d,
             cuentasContinuacion :=
               fold (\<lambda>ngram acc. counter_incr acc (tl ngram)) (map fst c) (cuentasContinuacion self)\<rparr>)"

definition calcularCuentasContexto :: "engine \<Rightarrow> engine" where
  "calcularCuentasContexto self =
     (case dd_getitem (ngramCounts self) (self_n self) of (c, d) \<Rightarrow>
        self\<lparr>ngramCounts := d,
             cuentasContexto :=
               fold (\<lambda>ngram acc. counter_incr acc (butlast ngram)) (map fst c) (cuentasContexto self)\<rparr>)"

text \<open>The body of \<open>__init__\<close>: the engine once the three counting methods have run.\<close>

definition KneserNeySmoothing_init :: "string list \<Rightarrow> int \<Rightarrow> rat \<Rightarrow> engine" where
  "KneserNeySmoothing_init corpus n d =
     calcularCuentasContexto (calcularCuentasContinuacion (calcularFrecuencias
       \<lparr>self_n = n, descuento = d, unigramCounts = [], ngramCounts = [],
        cuentasContinuacion = [], cuentasContexto = [],
        totalNgrams = 0, totalUnigrams = 0\<rparr> corpus))"

text \<open>
  The call \<open>KneserNeySmoothing(corpus, n, descuento)\<close>: an instance or an exception.
  \<open>__init__\<close> and the three methods it calls have no \<open>raise\<close>, no division and no
  indexing, so the call always yields the instance.
\<close>

definition KneserNeySmoothing :: "string list \<Rightarrow> int \<Rightarrow> rat \<Rightarrow> error + engine" where
  "KneserNeySmoothing corpus n d = Inr (KneserNeySmoothing_init corpus n d)"

subsection \<open>The queries\<close>

definition probabilidadContinuacion :: "engine \<Rightarrow> string \<Rightarrow> error + rat" where
  "probabilidadContinuacion self word =
     truediv (of_int (counter_get (cuentasContinuacion self) [word])) (of_int (totalNgrams self))"

text \<open>
  \<open>_probabilidadCondicional\<close>. On the empty tuple \<open>ngram[-1]\<close> raises. The read
  \<open>self.ngramCounts[len(ngram)]\<close> goes through the \<open>defaultdict\<close>, so the engine is returned
  with the result.
\<close>

function probabilidadCondicional :: "engine \<Rightarrow> string list \<Rightarrow> (error + rat) \<times> engine" where
  "probabilidadCondicional self ngram =
     (if length ngram = 1 then
        (truediv (of_int (counter_get (unigramCounts self) (hd ngram)))
                 (of_int (totalUnigrams self)), self)
      else if ngram = [] then (Inl IndexError, self)
      else if counter_get (cuentasContexto self) (butlast ngram) = 0 then
        (probabilidadContinuacion self (last ngram), self)
      else
        (case probabilidadCondicional
                (self\<lparr>ngramCounts := snd (dd_getitem (ngramCounts self) (int (length ngram)))\<rparr>)
                (tl ngram) of
           (Inl err, self') \<Rightarrow> (Inl err, self')
         | (Inr lowerOrderProb, self') \<Rightarrow>
             (Inr (max (of_int (counter_get
                          (fst (dd_getitem (ngramCounts self) (int (length ngram)))) ngram)
                        - descuento self') 0
                     / of_int (counter_get (cuentasContexto self) (butlast ngram))
                   + descuento self' * lowerOrderProb
                     / of_int (counter_get (cuentasContexto self) (butlast ngram))),
              self')))"
  by pat_completeness auto
termination
  by (relation "measure (\<lambda>(self, ngram). length ngram)") auto

declare probabilidadCondicional.simps [simp del]

definition obtenerProbabilidad :: "engine \<Rightarrow> string list \<Rightarrow> (error + rat) \<times> engine" where
  "obtenerProbabilidad self ngram = probabilidadCondicional self ngram"

text \<open>The loop of \<open>generarProbabilidadOracion\<close>, from the running product \<open>prob\<close>.\<close>

fun multiplicar :: "engine \<Rightarrow> string list list \<Rightarrow> rat \<Rightarrow> (error + rat) \<times> engine" where
  "multiplicar self [] prob = (Inr prob, self)"
| "multiplicar self (ngram # rest) prob =
     (case obtenerProbabilidad self ngram of
        (Inl err, self') \<Rightarrow> (Inl err, self')
      | (Inr p, self') \<Rightarrow> multiplicar self' rest (prob * p))"

definition generarProbabilidadOracion :: "engine \<Rightarrow> string \<Rightarrow> (error + rat) \<times> engine" where
  "generarProbabilidadOracion self oracion =
     multiplicar self (ngrams_of (self_n self) (str_split oracion)) 1"

subsection \<open>The demonstration instance\<close>

definition corpus :: "string list" where
  "corpus = [''el gato come pescado'', ''el perro come carne'', ''el gato duerme'',
             ''el perro ladra'', ''el perro come pescado'']"

definition kneserNey :: engine where
  "kneserNey = KneserNeySmoothing_init corpus 2 (3 / 4)"

subsection \<open>Recursion depth\<close>

text \<open>
  \<open>_probabilidadCondicional\<close> again, with a bound on the number of nested recursive calls
  it may make: \<open>None\<close> when a recursive call is needed and the bound is used up.
\<close>

fun probabilidadCondicional_limit ::
  "nat \<Rightarrow> engine \<Rightarrow> string list \<Rightarrow> ((error + rat) \<times> engine) option" where
  "probabilidadCondicional_limit depth self ngram =
     (if length ngram = 1 then
        Some (truediv (of_int (counter_get (unigramCounts self) (hd ngram)))
                      (of_int (totalUnigrams self)), self)
      else if ngram = [] then Some (Inl IndexError, self)
      else if counter_get (cuentasContexto self) (butlast ngram) = 0 then
        Some (probabilidadContinuacion self (last ngram), self)
      else
        (case depth of
           0 \<Rightarrow> None
         | Suc depth' \<Rightarrow>
            (case probabilidadCondicional_limit depth'
                    (self\<lparr>ngramCounts := snd (dd_getitem (ngramCounts self) (int (length ngram)))\<rparr>)
                    (tl ngram) of
               None \<Rightarrow> None
             | Some (Inl err, self') \<Rightarrow> Some (Inl err, self')
             | Some (Inr lowerOrderProb, self') \<Rightarrow>
                 Some (Inr (max (of_int (counter_get
                              (fst (dd_getitem (ngramCounts self) (int (length ngram)))) ngram)
                            - descuento self') 0
                         / of_int (counter_get (cuentasContexto self) (butlast ngram))
                       + descuento self' * lowerOrderProb
                         / of_int (counter_get (cuentasContexto self) (butlast ngram))),
                  self'))))"

declare probabilidadCondicional_limit.simps [simp del]

subsection \<open>A client issuing queries\<close>

datatype query = Probability "string list" | SentenceProbability string

fun consultar :: "engine \<Rightarrow> query \<Rightarrow> (error + rat) \<times> engine" where
  "consultar self (Probability ngram) = obtenerProbabilidad self ngram"
| "consultar self (SentenceProbability oracion) = generarProbabilidadOracion self oracion"

text \<open>
  The engine after a sequence of queries; a query that raises leaves the engine as it was
  at the raise, and the client goes on with the next one.
\<close>

fun consultar_todas :: "engine \<Rightarrow> query list \<Rightarrow> engine" where
  "consultar_todas self [] = self"
| "consultar_todas self (q # qs) = consultar_todas (snd (consultar self q)) qs"

subsection \<open>The specification's notions\<close>

text \<open>All contiguous windows of length \<open>n\<close> of a token sequence, from left to right.\<close>

definition ventanas :: "nat \<Rightarrow> 'a list \<Rightarrow> 'a list list" where
  "ventanas n tokens = map (\<lambda>j. take n (drop j tokens)) [0..<Suc (length tokens) - n]"

text \<open>
  The product of a sequence of results, seeded at 1: the first exception in the sequence
  if there is one, the product of the values otherwise.
\<close>

fun producto :: "(error + rat) list \<Rightarrow> error + rat" where
  "producto [] = Inr 1"
| "producto (Inl err # rs) = Inl err"
| "producto (Inr p # rs) = (case producto rs of Inl err \<Rightarrow> Inl err | Inr q \<Rightarrow> Inr (p * q))"

text \<open>The tokens of a corpus.\<close>

definition vocabulario :: "string list \<Rightarrow> string set" where
  "vocabulario c = (\<Union>oracion \<in> set c. set (str_split oracion))"

subsection \<open>Invariants\<close>

text \<open>
  What counting maintains: a key of the counter stored under \<open>k\<close> is a non-empty tuple of
  length \<open>k\<close>; a non-empty counter means a positive total.
\<close>

definition inv_conteo :: "engine \<Rightarrow> bool" where
  "inv_conteo self \<longleftrightarrow>
     (\<forall>(k, c) \<in> set (ngramCounts self). \<forall>g \<in> fst ` set c. g \<noteq> [] \<and> int (length g) = k) \<and>
     (\<forall>(k, c) \<in> set (ngramCounts self). c \<noteq> [] \<longrightarrow> 0 < totalNgrams self) \<and>
     0 \<le> totalNgrams self"

text \<open>
  What the queries rely on: the table has an entry for the order; every context is a tuple
  one shorter than the order; where there is a context, both totals are positive.
\<close>

definition inv_consulta :: "engine \<Rightarrow> bool" where
  "inv_consulta self \<longleftrightarrow>
     map_of (ngramCounts self) (self_n self) \<noteq> None \<and>
     (\<forall>k \<in> fst ` set (cuentasContexto self). int (length k) = self_n self - 1) \<and>
     (cuentasContexto self \<noteq> [] \<longrightarrow> totalNgrams self \<noteq> 0 \<and> totalUnigrams self \<noteq> 0)"

section \<open>Counters, tables and n-grams\<close>

lemma set_update_subset: "set (AList.update k v al) \<subseteq> insert (k, v) (set al)"
  by (induction al) auto

lemma keys_counter_incr: "fst ` set (counter_incr c k) = insert k (fst ` set c)"
  by (simp add: counter_incr_def dom_update)

lemma counter_incr_nonempty: "counter_incr c k \<noteq> []"
  by (simp add: counter_incr_def)

lemma keys_fold_incr:
  "fst ` set (fold (\<lambda>x acc. counter_incr acc (f x)) xs c) = f ` set xs \<union> fst ` set c"
  by (induction xs arbitrary: c) (auto simp: keys_counter_incr)

lemma counter_get_nonzero: "counter_get c k \<noteq> 0 \<Longrightarrow> k \<in> fst ` set c"
proof -
  assume "counter_get c k \<noteq> 0"
  then have "map_of c k \<noteq> None"
    by (cases "map_of c k") (auto simp: counter_get_def)
  then show ?thesis
    by (simp add: map_of_eq_None_iff)
qed

lemma counter_get_absent: "k \<notin> fst ` set c \<Longrightarrow> counter_get c k = 0"
  by (rule ccontr) (simp add: counter_get_nonzero)

lemma dd_getitem_present: "map_of d k = Some c \<Longrightarrow> dd_getitem d k = (c, d)"
  by (simp add: dd_getitem_def)

lemma dd_getitem_absent: "map_of d k = None \<Longrightarrow> dd_getitem d k = ([], d @ [(k, [])])"
  by (simp add: dd_getitem_def)

lemma dd_getitem_after: "map_of (snd (dd_getitem d k)) k = Some (fst (dd_getitem d k))"
  by (cases "map_of d k") (simp_all add: dd_getitem_def map_add_Some_iff)

subsection \<open>The n-grams of a token sequence are its windows\<close>

lemma zip_star_length: "g \<in> set (zip_star ls) \<Longrightarrow> length g = length ls \<and> ls \<noteq> []"
proof (induction ls rule: zip_star.induct)
  case (1 ls)
  show ?case
  proof (cases "ls = [] \<or> [] \<in> set ls")
    case True
    with "1.prems" show ?thesis by (simp add: zip_star.simps [of ls])
  next
    case False
    with "1.prems" have "g = map hd ls \<or> g \<in> set (zip_star (map tl ls))"
      by (simp add: zip_star.simps [of ls])
    with "1.IH" [OF False] False show ?thesis by auto
  qed
qed

lemma zip_star_exhausted: "[] \<in> set ls \<Longrightarrow> zip_star ls = []"
  by (simp add: zip_star.simps [of ls])

lemma ngrams_of_Nil: "ngrams_of n [] = []"
proof (cases "n \<le> 0")
  case True
  then show ?thesis by (simp add: ngrams_of_def zip_star.simps [of "[]"])
next
  case False
  then have "[] \<in> set (map (\<lambda>i. drop i ([] :: 'a list)) [0..<nat n])"
    by (auto intro!: image_eqI [where x = 0])
  then show ?thesis
    unfolding ngrams_of_def by (rule zip_star_exhausted)
qed

lemma ngrams_of_nonpos: "n < 1 \<Longrightarrow> ngrams_of n tokens = []"
  by (simp add: ngrams_of_def zip_star.simps [of "[]"])

lemma ngrams_of_length: "g \<in> set (ngrams_of n tokens) \<Longrightarrow> g \<noteq> [] \<and> int (length g) = n"
proof -
  assume "g \<in> set (ngrams_of n tokens)"
  then have "length g = length (map (\<lambda>i. drop i tokens) [0..<nat n]) \<and> map (\<lambda>i. drop i tokens) [0..<nat n] \<noteq> []"
    unfolding ngrams_of_def by (rule zip_star_length)
  then show ?thesis by auto
qed

lemma ngrams_of_Cons:
  "ngrams_of n (t # ts) =
     (if 1 \<le> n \<and> n \<le> int (length (t # ts)) then take (nat n) (t # ts) # ngrams_of n ts else [])"
proof (cases "1 \<le> n")
  case False
  then show ?thesis by (simp add: ngrams_of_nonpos)
next
  case True
  define m where "m = nat n"
  define ls where "ls = map (\<lambda>i. drop i (t # ts)) [0..<m]"
  have m: "0 < m" "n = int m" using True by (simp_all add: m_def)
  have ne: "ls \<noteq> []" using m by (simp add: ls_def)
  have emp: "[] \<in> set ls \<longleftrightarrow> length (t # ts) < m"
    by (auto simp: ls_def)
  have unfold: "ngrams_of n (t # ts) = zip_star ls"
    by (simp add: ngrams_of_def ls_def m_def)
  show ?thesis
  proof (cases "m \<le> length (t # ts)")
    case False
    with emp m unfold show ?thesis
      by (simp add: zip_star.simps [of ls])
  next
    case le: True
    have hd_eq: "map hd ls = take m (t # ts)"
    proof (rule nth_equalityI)
      show "length (map hd ls) = length (take m (t # ts))"
        using le by (simp add: ls_def)
    next
      fix i assume "i < length (map hd ls)"
      then have "i < m" by (simp add: ls_def)
      with le show "map hd ls ! i = take m (t # ts) ! i"
        by (simp add: ls_def hd_drop_conv_nth)
    qed
    have tl_eq: "map tl ls = map (\<lambda>i. drop i ts) [0..<m]"
      by (simp add: ls_def tl_drop)
    have "zip_star ls = map hd ls # zip_star (map tl ls)"
      using le emp ne by (simp add: zip_star.simps [of ls])
    also have "\<dots> = take m (t # ts) # ngrams_of n ts"
      by (simp only: hd_eq tl_eq ngrams_of_def m_def [symmetric])
    finally show ?thesis
      using le unfold True by (simp add: m_def)
  qed
qed

lemma ngrams_of_ventanas: "1 \<le> n \<Longrightarrow> ngrams_of n tokens = ventanas (nat n) tokens"
proof (induction tokens)
  case Nil
  then show ?case by (simp add: ngrams_of_Nil ventanas_def)
next
  case (Cons t ts)
  show ?case
  proof (cases "n \<le> int (length (t # ts))")
    case False
    with Cons.prems show ?thesis
      by (simp add: ngrams_of_Cons ventanas_def)
  next
    case True
    then have "Suc (length (t # ts)) - nat n = Suc (Suc (length ts) - nat n)"
      using Cons.prems by simp
    then have "ventanas (nat n) (t # ts) = take (nat n) (t # ts) # ventanas (nat n) ts"
      unfolding ventanas_def
      by (simp add: upt_conv_Cons map_Suc_upt [symmetric] del: upt_Suc)
    with True Cons show ?thesis
      by (simp add: ngrams_of_Cons)
  qed
qed

lemma length_ngrams_of: "length (ngrams_of n tokens) \<le> length tokens"
proof (cases "1 \<le> n")
  case True
  then show ?thesis by (simp add: ngrams_of_ventanas ventanas_def)
next
  case False
  then show ?thesis by (simp add: ngrams_of_nonpos)
qed

section \<open>The recursive probability\<close>

lemma probabilidadCondicional_empty:
  "probabilidadCondicional self [] = (Inl IndexError, self)"
  by (simp add: probabilidadCondicional.simps [of self "[]"])

lemma probabilidadCondicional_unigram:
  "probabilidadCondicional self [w] =
     (truediv (of_int (counter_get (unigramCounts self) w)) (of_int (totalUnigrams self)), self)"
  by (simp add: probabilidadCondicional.simps [of self "[w]"])

lemma probabilidadCondicional_fallback:
  "2 \<le> length ngram \<Longrightarrow> counter_get (cuentasContexto self) (butlast ngram) = 0 \<Longrightarrow>
   probabilidadCondicional self ngram = (probabilidadContinuacion self (last ngram), self)"
  by (auto simp add: probabilidadCondicional.simps [of self ngram])

lemma trained_returns:
  "totalUnigrams self \<noteq> 0 \<Longrightarrow> totalNgrams self \<noteq> 0 \<Longrightarrow> ngram \<noteq> [] \<Longrightarrow>
   \<exists>p. fst (probabilidadCondicional self ngram) = Inr p"
proof (induction self ngram rule: probabilidadCondicional.induct)
  case (1 self ngram)
  show ?case
  proof (cases "length ngram = 1")
    case True
    with 1 show ?thesis
      by (simp add: probabilidadCondicional.simps [of self ngram] truediv_def)
  next
    case n1: False
    show ?thesis
    proof (cases "counter_get (cuentasContexto self) (butlast ngram) = 0")
      case True
      with 1 n1 show ?thesis
        by (simp add: probabilidadCondicional.simps [of self ngram] truediv_def
            probabilidadContinuacion_def)
    next
      case False
      let ?self1 = "self\<lparr>ngramCounts :=
                           snd (dd_getitem (ngramCounts self) (int (length ngram)))\<rparr>"
      have "tl ngram \<noteq> []"
        using n1 "1.prems" by (cases ngram) auto
      with "1.IH" [OF n1 _ False] "1.prems"
      obtain p where "fst (probabilidadCondicional ?self1 (tl ngram)) = Inr p"
        by auto
      then obtain s' where "probabilidadCondicional ?self1 (tl ngram) = (Inr p, s')"
        by (metis prod.collapse)
      with n1 False "1.prems" show ?thesis
        by (simp add: probabilidadCondicional.simps [of self ngram])
    qed
  qed
qed

lemma limit_enough:
  "length ngram \<le> Suc depth \<Longrightarrow>
   probabilidadCondicional_limit depth self ngram = Some (probabilidadCondicional self ngram)"
proof (induction depth arbitrary: self ngram)
  case 0
  then have "length ngram = 1 \<or> ngram = []"
    by (cases ngram) auto
  then show ?case
    by (auto simp: probabilidadCondicional_limit.simps [of 0 self ngram]
        probabilidadCondicional.simps [of self ngram])
next
  case (Suc depth)
  show ?case
  proof (cases "length ngram = 1 \<or> ngram = []
                \<or> counter_get (cuentasContexto self) (butlast ngram) = 0")
    case True
    then show ?thesis
      by (auto simp: probabilidadCondicional_limit.simps [of "Suc depth" self ngram]
          probabilidadCondicional.simps [of self ngram])
  next
    case False
    then have "length (tl ngram) \<le> Suc depth"
      using Suc.prems by simp
    from Suc.IH [OF this] False show ?thesis
      by (simp add: probabilidadCondicional_limit.simps [of "Suc depth" self ngram]
          probabilidadCondicional.simps [of self ngram] split: prod.splits sum.splits)
  qed
qed

section \<open>What construction establishes\<close>

subsection \<open>Reading and incrementing the table\<close>

lemma dd_getitem_set:
  "set (snd (dd_getitem d k)) \<subseteq> insert (k, []) (set d)"
  by (cases "map_of d k") (auto simp: dd_getitem_def)

lemma dd_getitem_fst:
  "fst (dd_getitem d k) = [] \<or> (k, fst (dd_getitem d k)) \<in> set d"
  by (cases "map_of d k") (auto simp: dd_getitem_def dest: map_of_SomeD)

lemma dd_incr_set:
  assumes "(k', c') \<in> set (dd_incr d k g)"
  shows "(k', c') \<in> set d \<or> k' = k \<and> c' = []
         \<or> k' = k \<and> (\<exists>c. c' = counter_incr c g \<and> (c = [] \<or> (k, c) \<in> set d))"
proof -
  obtain c d' where gi: "dd_getitem d k = (c, d')"
    by (cases "dd_getitem d k")
  then have "(k', c') \<in> insert (k, counter_incr c g) (set d')"
    using assms set_update_subset [of k "counter_incr c g" d'] by (auto simp: dd_incr_def)
  moreover have "set d' \<subseteq> insert (k, []) (set d)"
    using dd_getitem_set [of d k] gi by simp
  moreover have "c = [] \<or> (k, c) \<in> set d"
    using dd_getitem_fst [of d k] gi by simp
  ultimately show ?thesis
    by blast
qed

subsection \<open>Counting one n-gram\<close>

lemma contar_ngram_fields [simp]:
  "self_n (contar_ngram g self) = self_n self"
  "descuento (contar_ngram g self) = descuento self"
  "unigramCounts (contar_ngram g self) = unigramCounts self"
  "cuentasContinuacion (contar_ngram g self) = cuentasContinuacion self"
  "cuentasContexto (contar_ngram g self) = cuentasContexto self"
  "totalUnigrams (contar_ngram g self) = totalUnigrams self"
  "totalNgrams (contar_ngram g self) = totalNgrams self + 1"
  by (simp_all add: contar_ngram_def)

lemma contar_ngram_inv:
  assumes "inv_conteo self" and "g \<noteq> []"
  shows "inv_conteo (contar_ngram g self)"
proof -
  let ?d = "ngramCounts self"
  let ?k = "int (length g)"
  have nc: "ngramCounts (contar_ngram g self) = dd_incr ?d ?k g"
    by (simp add: contar_ngram_def)
  have old: "\<And>k c h. (k, c) \<in> set ?d \<Longrightarrow> h \<in> fst ` set c \<Longrightarrow> h \<noteq> [] \<and> int (length h) = k"
    using assms(1) unfolding inv_conteo_def by blast
  have pos: "0 < totalNgrams (contar_ngram g self)"
    using assms(1) by (simp add: inv_conteo_def)
  have keys: "h \<noteq> [] \<and> int (length h) = k'"
    if "(k', c') \<in> set (dd_incr ?d ?k g)" and "h \<in> fst ` set c'" for k' c' h
  proof -
    from dd_incr_set [OF that(1)] consider
      "(k', c') \<in> set ?d" | "c' = []"
      | c where "k' = ?k" "c' = counter_incr c g" "c = [] \<or> (?k, c) \<in> set ?d"
      by blast
    then show ?thesis
    proof cases
      case 1
      then show ?thesis using old that(2) by blast
    next
      case 2
      then show ?thesis using that(2) by simp
    next
      case 3
      then have "h = g \<or> h \<in> fst ` set c"
        using that(2) by (simp add: keys_counter_incr)
      then show ?thesis
      proof
        assume "h = g"
        then show ?thesis using assms(2) 3(1) by simp
      next
        assume hc: "h \<in> fst ` set c"
        then have "c \<noteq> []" by auto
        with 3(3) have "(?k, c) \<in> set ?d" by simp
        with old hc 3(1) show ?thesis by blast
      qed
    qed
  qed
  show ?thesis
    unfolding inv_conteo_def nc using keys pos by auto
qed

lemma fold_contar_ngram_fields [simp]:
  "self_n (fold contar_ngram gs self) = self_n self"
  "descuento (fold contar_ngram gs self) = descuento self"
  "unigramCounts (fold contar_ngram gs self) = unigramCounts self"
  "cuentasContinuacion (fold contar_ngram gs self) = cuentasContinuacion self"
  "cuentasContexto (fold contar_ngram gs self) = cuentasContexto self"
  "totalUnigrams (fold contar_ngram gs self) = totalUnigrams self"
  "totalNgrams (fold contar_ngram gs self) = totalNgrams self + int (length gs)"
  by (induction gs arbitrary: self) simp_all

lemma fold_contar_ngram_inv:
  "inv_conteo self \<Longrightarrow> [] \<notin> set gs \<Longrightarrow> inv_conteo (fold contar_ngram gs self)"
  by (induction gs arbitrary: self) (auto simp: contar_ngram_inv)

subsection \<open>Counting one sentence, and the corpus\<close>

lemma contar_oracion_fields [simp]:
  "self_n (contar_oracion s self) = self_n self"
  "descuento (contar_oracion s self) = descuento self"
  "cuentasContinuacion (contar_oracion s self) = cuentasContinuacion self"
  "cuentasContexto (contar_oracion s self) = cuentasContexto self"
  "unigramCounts (contar_oracion s self) = counter_update (unigramCounts self) (str_split s)"
  "totalUnigrams (contar_oracion s self) = totalUnigrams self + int (length (str_split s))"
  "totalNgrams (contar_oracion s self)
     = totalNgrams self + int (length (ngrams_of (self_n self) (str_split s)))"
  by (simp_all add: contar_oracion_def Let_def)

lemma contar_oracion_inv:
  assumes "inv_conteo self"
  shows "inv_conteo (contar_oracion s self)"
proof -
  let ?tokens = "str_split s"
  let ?self2 = "self\<lparr>totalUnigrams := totalUnigrams self + int (length ?tokens),
                      unigramCounts := counter_update (unigramCounts self) ?tokens\<rparr>"
  have "inv_conteo ?self2"
    using assms by (simp add: inv_conteo_def)
  moreover have "[] \<notin> set (ngrams_of (self_n ?self2) ?tokens)"
    using ngrams_of_length by blast
  ultimately have "inv_conteo (fold contar_ngram (ngrams_of (self_n ?self2) ?tokens) ?self2)"
    by (rule fold_contar_ngram_inv)
  then show ?thesis
    by (simp add: contar_oracion_def Let_def)
qed

lemma calcularFrecuencias_fields [simp]:
  "self_n (calcularFrecuencias self c) = self_n self"
  "descuento (calcularFrecuencias self c) = descuento self"
  "cuentasContinuacion (calcularFrecuencias self c) = cuentasContinuacion self"
  "cuentasContexto (calcularFrecuencias self c) = cuentasContexto self"
  unfolding calcularFrecuencias_def
  by (induction c arbitrary: self) simp_all

lemma calcularFrecuencias_totalUnigrams:
  "totalUnigrams (calcularFrecuencias self c)
     = totalUnigrams self + (\<Sum>s\<leftarrow>c. int (length (str_split s)))"
  unfolding calcularFrecuencias_def
  by (induction c arbitrary: self) simp_all

lemma calcularFrecuencias_totalNgrams:
  "totalNgrams (calcularFrecuencias self c)
     = totalNgrams self + (\<Sum>s\<leftarrow>c. int (length (ngrams_of (self_n self) (str_split s))))"
  unfolding calcularFrecuencias_def
  by (induction c arbitrary: self) simp_all

lemma keys_counter_update:
  "fst ` set (counter_update cnt ks) = set ks \<union> fst ` set cnt"
  using keys_fold_incr [of "\<lambda>k. k" ks cnt] by (simp add: counter_update_def)

lemma calcularFrecuencias_unigram_keys:
  "fst ` set (unigramCounts (calcularFrecuencias self c))
     = vocabulario c \<union> fst ` set (unigramCounts self)"
  unfolding calcularFrecuencias_def vocabulario_def
  by (induction c arbitrary: self) (auto simp: keys_counter_update)

lemma calcularFrecuencias_inv:
  "inv_conteo self \<Longrightarrow> inv_conteo (calcularFrecuencias self c)"
  unfolding calcularFrecuencias_def
  by (induction c arbitrary: self) (simp_all add: contar_oracion_inv)

lemma sum_ngrams_le_tokens:
  "(\<Sum>s\<leftarrow>c. int (length (ngrams_of n (str_split s)))) \<le> (\<Sum>s\<leftarrow>c. int (length (str_split s)))"
  by (induction c) (simp_all add: add_mono length_ngrams_of)

subsection \<open>Continuation and context counts\<close>

lemma calcularCuentasContinuacion_fields [simp]:
  "self_n (calcularCuentasContinuacion self) = self_n self"
  "descuento (calcularCuentasContinuacion self) = descuento self"
  "unigramCounts (calcularCuentasContinuacion self) = unigramCounts self"
  "cuentasContexto (calcularCuentasContinuacion self) = cuentasContexto self"
  "totalUnigrams (calcularCuentasContinuacion self) = totalUnigrams self"
  "totalNgrams (calcularCuentasContinuacion self) = totalNgrams self"
  "ngramCounts (calcularCuentasContinuacion self)
     = snd (dd_getitem (ngramCounts self) (self_n self))"
  by (simp_all add: calcularCuentasContinuacion_def split: prod.splits)

lemma calcularCuentasContexto_fields [simp]:
  "self_n (calcularCuentasContexto self) = self_n self"
  "descuento (calcularCuentasContexto self) = descuento self"
  "unigramCounts (calcularCuentasContexto self) = unigramCounts self"
  "cuentasContinuacion (calcularCuentasContexto self) = cuentasContinuacion self"
  "totalUnigrams (calcularCuentasContexto self) = totalUnigrams self"
  "totalNgrams (calcularCuentasContexto self) = totalNgrams self"
  "ngramCounts (calcularCuentasContexto self)
     = snd (dd_getitem (ngramCounts self) (self_n self))"
  "cuentasContexto (calcularCuentasContexto self)
     = fold (\<lambda>ngram acc. counter_incr acc (butlast ngram))
         (map fst (fst (dd_getitem (ngramCounts self) (self_n self)))) (cuentasContexto self)"
  by (simp_all add: calcularCuentasContexto_def split: prod.splits)

lemma inv_conteo_keys:
  "inv_conteo self \<Longrightarrow> (k, c) \<in> set (ngramCounts self) \<Longrightarrow> g \<in> fst ` set c \<Longrightarrow>
   g \<noteq> [] \<and> int (length g) = k"
  unfolding inv_conteo_def by blast

lemma inv_conteo_pos:
  "inv_conteo self \<Longrightarrow> (k, c) \<in> set (ngramCounts self) \<Longrightarrow> c \<noteq> [] \<Longrightarrow>
   0 < totalNgrams self"
  unfolding inv_conteo_def by blast

lemma inv_conteo_getitem_keys:
  assumes "inv_conteo self" and "g \<in> fst ` set (fst (dd_getitem (ngramCounts self) k))"
  shows "g \<noteq> [] \<and> int (length g) = k"
proof -
  have "fst (dd_getitem (ngramCounts self) k) \<noteq> []"
    using assms(2) by auto
  then have "(k, fst (dd_getitem (ngramCounts self) k)) \<in> set (ngramCounts self)"
    using dd_getitem_fst [of "ngramCounts self" k] by simp
  from inv_conteo_keys [OF assms(1) this assms(2)] show ?thesis .
qed

lemma inv_conteo_getitem_pos:
  assumes "inv_conteo self" and "fst (dd_getitem (ngramCounts self) k) \<noteq> []"
  shows "0 < totalNgrams self"
proof -
  have "(k, fst (dd_getitem (ngramCounts self) k)) \<in> set (ngramCounts self)"
    using dd_getitem_fst [of "ngramCounts self" k] assms(2) by simp
  from inv_conteo_pos [OF assms(1) this assms(2)] show ?thesis .
qed

lemma inv_conteo_getitem:
  assumes "inv_conteo self"
    and nc: "ngramCounts self' = snd (dd_getitem (ngramCounts self) k)"
    and tot: "totalNgrams self' = totalNgrams self"
  shows "inv_conteo self'"
  unfolding inv_conteo_def
proof (intro conjI ballI)
  fix p assume p: "p \<in> set (ngramCounts self')"
  obtain k' c' where pk: "p = (k', c')" by (cases p)
  from p nc have "p \<in> insert (k, []) (set (ngramCounts self))"
    using dd_getitem_set [of "ngramCounts self" k] by auto
  then have alt: "c' = [] \<or> (k', c') \<in> set (ngramCounts self)"
    using pk by auto
  show "case p of (k, c) \<Rightarrow> \<forall>g\<in>fst ` set c. g \<noteq> [] \<and> int (length g) = k"
  proof (simp only: pk prod.case, rule ballI)
    fix g assume g: "g \<in> fst ` set c'"
    then have "c' \<noteq> []" by auto
    with alt have "(k', c') \<in> set (ngramCounts self)" by simp
    from inv_conteo_keys [OF assms(1) this g] show "g \<noteq> [] \<and> int (length g) = k'" .
  qed
  show "case p of (k, c) \<Rightarrow> c \<noteq> [] \<longrightarrow> 0 < totalNgrams self'"
  proof (simp only: pk prod.case, rule impI)
    assume "c' \<noteq> []"
    with alt have "(k', c') \<in> set (ngramCounts self)" by simp
    from inv_conteo_pos [OF assms(1) this \<open>c' \<noteq> []\<close>] show "0 < totalNgrams self'"
      by (simp only: tot)
  qed
next
  show "0 \<le> totalNgrams self'"
    using assms(1) tot by (simp add: inv_conteo_def)
qed

lemma calcularCuentasContinuacion_inv:
  "inv_conteo self \<Longrightarrow> inv_conteo (calcularCuentasContinuacion self)"
  by (rule inv_conteo_getitem [where k = "self_n self"]) simp_all

lemma calcularCuentasContinuacion_entry:
  "map_of (ngramCounts (calcularCuentasContinuacion self)) (self_n self) \<noteq> None"
  by (simp add: dd_getitem_after)

subsection \<open>The constructed engine\<close>

lemma inv_conteo_initial:
  "inv_conteo \<lparr>self_n = n, descuento = d, unigramCounts = [], ngramCounts = [],
     cuentasContinuacion = [], cuentasContexto = [], totalNgrams = 0, totalUnigrams = 0\<rparr>"
  by (simp add: inv_conteo_def)

lemma init_fields:
  "self_n (KneserNeySmoothing_init c n d) = n"
  "descuento (KneserNeySmoothing_init c n d) = d"
  "totalUnigrams (KneserNeySmoothing_init c n d) = (\<Sum>s\<leftarrow>c. int (length (str_split s)))"
  "totalNgrams (KneserNeySmoothing_init c n d)
     = (\<Sum>s\<leftarrow>c. int (length (ngrams_of n (str_split s))))"
  by (simp_all add: KneserNeySmoothing_init_def calcularFrecuencias_totalUnigrams
      calcularFrecuencias_totalNgrams)

lemma init_unigram_keys:
  "fst ` set (unigramCounts (KneserNeySmoothing_init c n d)) = vocabulario c"
  by (simp add: KneserNeySmoothing_init_def calcularFrecuencias_unigram_keys)

lemma init_totals_le:
  "totalNgrams (KneserNeySmoothing_init c n d) \<le> totalUnigrams (KneserNeySmoothing_init c n d)"
  by (simp only: init_fields sum_ngrams_le_tokens)

lemma calcularCuentasContexto_consulta:
  assumes inv: "inv_conteo self"
    and entry: "map_of (ngramCounts self) (self_n self) \<noteq> None"
    and empty: "cuentasContexto self = []"
    and le: "totalNgrams self \<le> totalUnigrams self"
  shows "inv_consulta (calcularCuentasContexto self)"
proof -
  let ?c = "fst (dd_getitem (ngramCounts self) (self_n self))"
  let ?ctx = "cuentasContexto (calcularCuentasContexto self)"
  have ctx: "fst ` set ?ctx = butlast ` set (map fst ?c)"
    by (simp add: empty keys_fold_incr)
  have lens: "int (length k) = self_n self - 1" if "k \<in> fst ` set ?ctx" for k
  proof -
    from that ctx obtain g where g: "g \<in> fst ` set ?c" "k = butlast g"
      by auto
    from inv_conteo_getitem_keys [OF inv g(1)] g(2) show ?thesis
      by (cases g rule: rev_cases) simp_all
  qed
  have tot: "totalNgrams self \<noteq> 0 \<and> totalUnigrams self \<noteq> 0" if "?ctx \<noteq> []"
  proof -
    from that have "fst ` set ?ctx \<noteq> {}" by simp
    with ctx have "?c \<noteq> []" by auto
    from inv_conteo_getitem_pos [OF inv this] le show ?thesis by simp
  qed
  have "map_of (ngramCounts (calcularCuentasContexto self)) (self_n self) \<noteq> None"
    by (simp add: dd_getitem_after)
  with lens tot show ?thesis
    unfolding inv_consulta_def by simp
qed

lemma init_inv_consulta: "inv_consulta (KneserNeySmoothing_init c n d)"
  unfolding KneserNeySmoothing_init_def
proof (rule calcularCuentasContexto_consulta)
  let ?e0 = "\<lparr>self_n = n, descuento = d, unigramCounts = [], ngramCounts = [],
     cuentasContinuacion = [], cuentasContexto = [], totalNgrams = 0, totalUnigrams = 0\<rparr>"
  let ?e2 = "calcularCuentasContinuacion (calcularFrecuencias ?e0 c)"
  show "inv_conteo ?e2"
    by (intro calcularCuentasContinuacion_inv calcularFrecuencias_inv inv_conteo_initial)
  show "map_of (ngramCounts ?e2) (self_n ?e2) \<noteq> None"
    using calcularCuentasContinuacion_entry [of "calcularFrecuencias ?e0 c"] by simp
  show "cuentasContexto ?e2 = []"
    by simp
  show "totalNgrams ?e2 \<le> totalUnigrams ?e2"
    by (simp add: calcularFrecuencias_totalUnigrams calcularFrecuencias_totalNgrams
        sum_ngrams_le_tokens)
qed

subsection \<open>Queries leave a coherent engine as it is\<close>

lemma inv_consulta_context_length:
  assumes "inv_consulta self" and "counter_get (cuentasContexto self) (butlast ngram) \<noteq> 0"
    and "ngram \<noteq> []"
  shows "int (length ngram) = self_n self"
proof -
  from assms(2) have "butlast ngram \<in> fst ` set (cuentasContexto self)"
    by (rule counter_get_nonzero)
  with assms(1) have "int (length (butlast ngram)) = self_n self - 1"
    unfolding inv_consulta_def by blast
  with assms(3) show ?thesis
    by (cases ngram rule: rev_cases) simp_all
qed

lemma inv_consulta_getitem:
  assumes "inv_consulta self" and "counter_get (cuentasContexto self) (butlast ngram) \<noteq> 0"
    and "ngram \<noteq> []"
  shows "snd (dd_getitem (ngramCounts self) (int (length ngram))) = ngramCounts self"
proof -
  from assms(1) obtain c where "map_of (ngramCounts self) (self_n self) = Some c"
    unfolding inv_consulta_def by blast
  then show ?thesis
    by (simp add: inv_consulta_context_length [OF assms] dd_getitem_present)
qed

lemma inv_consulta_totals:
  assumes "inv_consulta self" and "counter_get (cuentasContexto self) k \<noteq> 0"
  shows "totalNgrams self \<noteq> 0 \<and> totalUnigrams self \<noteq> 0"
proof -
  from assms(2) have "k \<in> fst ` set (cuentasContexto self)"
    by (rule counter_get_nonzero)
  then have "cuentasContexto self \<noteq> []"
    by auto
  with assms(1) show ?thesis
    unfolding inv_consulta_def by blast
qed

lemma probabilidadCondicional_state:
  "inv_consulta self \<Longrightarrow> snd (probabilidadCondicional self ngram) = self"
proof (induction self ngram rule: probabilidadCondicional.induct)
  case (1 self ngram)
  show ?case
  proof (cases "length ngram = 1 \<or> ngram = []
                \<or> counter_get (cuentasContexto self) (butlast ngram) = 0")
    case True
    then show ?thesis
      by (auto simp: probabilidadCondicional.simps [of self ngram])
  next
    case False
    then have same: "self\<lparr>ngramCounts :=
        snd (dd_getitem (ngramCounts self) (int (length ngram)))\<rparr> = self"
      using inv_consulta_getitem [OF "1.prems", of ngram] by simp
    from False have "snd (probabilidadCondicional self (tl ngram)) = self"
      using "1.IH" "1.prems" same by simp
    with False same show ?thesis
      by (auto simp: probabilidadCondicional.simps [of self ngram]
          split: prod.splits sum.splits)
  qed
qed

subsection \<open>Sequences of queries, the sentence product, the interpolation step\<close>

lemma obtenerProbabilidad_state:
  "inv_consulta self \<Longrightarrow> snd (obtenerProbabilidad self ngram) = self"
  by (simp add: obtenerProbabilidad_def probabilidadCondicional_state)

lemma multiplicar_state:
  "inv_consulta self \<Longrightarrow> snd (multiplicar self ws acc) = self"
proof (induction ws arbitrary: acc)
  case Nil
  show ?case by simp
next
  case (Cons w ws)
  obtain r s' where q: "obtenerProbabilidad self w = (r, s')"
    by (cases "obtenerProbabilidad self w")
  with obtenerProbabilidad_state [OF Cons.prems, of w] have "s' = self"
    by simp
  with q Cons show ?case
    by (cases r) simp_all
qed

lemma multiplicar_producto:
  "inv_consulta self \<Longrightarrow>
   fst (multiplicar self ws acc) =
     (case producto (map (\<lambda>w. fst (obtenerProbabilidad self w)) ws) of
        Inl err \<Rightarrow> Inl err
      | Inr q \<Rightarrow> Inr (acc * q))"
proof (induction ws arbitrary: acc)
  case Nil
  show ?case by simp
next
  case (Cons w ws)
  obtain r s' where q: "obtenerProbabilidad self w = (r, s')"
    by (cases "obtenerProbabilidad self w")
  with obtenerProbabilidad_state [OF Cons.prems, of w] have "s' = self"
    by simp
  with q Cons show ?case
    by (cases r) (simp_all split: sum.splits)
qed

lemma generarProbabilidadOracion_state:
  "inv_consulta self \<Longrightarrow> snd (generarProbabilidadOracion self oracion) = self"
  by (simp add: generarProbabilidadOracion_def multiplicar_state)

lemma consultar_state: "inv_consulta self \<Longrightarrow> snd (consultar self q) = self"
  by (cases q) (simp_all add: obtenerProbabilidad_state generarProbabilidadOracion_state)

lemma consultar_todas_state: "inv_consulta self \<Longrightarrow> consultar_todas self qs = self"
  by (induction qs) (simp_all add: consultar_state)

lemma ngrams_of_short: "int (length tokens) < n \<Longrightarrow> ngrams_of n tokens = []"
  by (cases "1 \<le> n") (simp_all add: ngrams_of_ventanas ventanas_def ngrams_of_nonpos)

lemma interpolation_step:
  assumes inv: "inv_consulta self"
    and len: "1 < length ngram"
    and pc: "counter_get (cuentasContexto self) (butlast ngram) \<noteq> 0"
  shows "\<exists>lower. fst (probabilidadCondicional self (tl ngram)) = Inr lower \<and>
    fst (probabilidadCondicional self ngram) =
      Inr (max (of_int (counter_get (fst (dd_getitem (ngramCounts self) (int (length ngram)))) ngram)
                - descuento self) 0
             / of_int (counter_get (cuentasContexto self) (butlast ngram))
           + descuento self * lower
             / of_int (counter_get (cuentasContexto self) (butlast ngram)))"
proof -
  have ne: "ngram \<noteq> []" "tl ngram \<noteq> []" "length ngram \<noteq> 1"
    using len by (cases ngram; simp)+
  have same: "self\<lparr>ngramCounts :=
      snd (dd_getitem (ngramCounts self) (int (length ngram)))\<rparr> = self"
    using inv_consulta_getitem [OF inv pc ne(1)] by simp
  from inv_consulta_totals [OF inv pc] trained_returns [of self "tl ngram"] ne(2)
  obtain lower where lower: "fst (probabilidadCondicional self (tl ngram)) = Inr lower"
    by blast
  moreover have "snd (probabilidadCondicional self (tl ngram)) = self"
    using inv by (rule probabilidadCondicional_state)
  ultimately have "probabilidadCondicional self (tl ngram) = (Inr lower, self)"
    by (simp add: prod_eq_iff)
  with ne pc same lower show ?thesis
    by (simp add: probabilidadCondicional.simps [of self ngram])
qed

section \<open>The claims\<close>

text \<open>
  C1. The claim: for every n-gram of length 1 to n, \<open>probability\<close> returns a value in the
  closed interval from 0 to 1. On the demonstration instance of the source (order 2, discount
  0.75, the five sentences) the bigram \<open>("el", "perro")\<close> gets 19/16: the bigram occurs 3
  times, and the divisor \<open>cuentasContexto[("el",)]\<close> is 2, the number of distinct bigrams
  that start with "el".
\<close>

theorem probability_el_perro_above_one:
  "fst (obtenerProbabilidad kneserNey [''el'', ''perro'']) = Inr (19 / 16)"
  by code_simp

text \<open>
  C2, as stated: construction raises an error when the order is below 1, when the discount
  is outside the open interval from 0 to 1, or when the corpus yields no n-gram. With the
  empty corpus, order 0 and discount 2 the call returns an engine.
\<close>

theorem construction_never_raises_example:
  "KneserNeySmoothing [] 0 2 =
     Inr \<lparr>self_n = 0, descuento = 2, unigramCounts = [], ngramCounts = [(0, [])],
          cuentasContinuacion = [], cuentasContexto = [], totalNgrams = 0, totalUnigrams = 0\<rparr>"
  by code_simp

text \<open>
  C2, amended: construction checks nothing and never raises. For every corpus, order and
  discount the call returns an engine that holds the order and the discount as given; when
  the order is below 1, or every sentence has fewer tokens than the order, the engine
  returned has a total of 0 n-grams.
\<close>

theorem construction_never_raises:
  "KneserNeySmoothing c n d = Inr (KneserNeySmoothing_init c n d) \<and>
   self_n (KneserNeySmoothing_init c n d) = n \<and>
   descuento (KneserNeySmoothing_init c n d) = d \<and>
   ((n < 1 \<or> (\<forall>oracion \<in> set c. int (length (str_split oracion)) < n)) \<longrightarrow>
      totalNgrams (KneserNeySmoothing_init c n d) = 0)"
proof -
  have "(\<Sum>s\<leftarrow>c. int (length (ngrams_of n (str_split s)))) = 0"
    if "n < 1 \<or> (\<forall>oracion \<in> set c. int (length (str_split oracion)) < n)"
  proof -
    from that have "\<forall>s \<in> set c. ngrams_of n (str_split s) = []"
      by (auto simp: ngrams_of_nonpos ngrams_of_short)
    then show ?thesis
      by (induction c) simp_all
  qed
  then show ?thesis
    by (simp add: KneserNeySmoothing_def init_fields)
qed

theorem construction_never_raises_witness:
  "KneserNeySmoothing [''hola''] 2 5 = Inr (KneserNeySmoothing_init [''hola''] 2 5) \<and>
   self_n (KneserNeySmoothing_init [''hola''] 2 5) = 2 \<and>
   descuento (KneserNeySmoothing_init [''hola''] 2 5) = 5 \<and>
   ((2 :: int) < 1 \<or> int (length (str_split ''hola'')) < 2) \<and>
   totalNgrams (KneserNeySmoothing_init [''hola''] 2 5) = 0"
proof -
  have h: "int (length (str_split ''hola'')) < 2"
    by code_simp
  with construction_never_raises [of "[''hola'']" 2 5] show ?thesis
    by simp
qed

text \<open>
  C3. On a constructed engine, for every tuple of length above 1 whose prefix has a positive
  context count, the recursive probability of the tuple without its first token is a value
  \<open>lowerOrderProb\<close>, and \<open>probability\<close> returns
  \<open>max(ngramCount - D, 0) / prefixCount + D * lowerOrderProb / prefixCount\<close>, where
  \<open>ngramCount\<close> is read from the table under the tuple's length (0 if unseen).
\<close>

theorem interpolation_formula:
  assumes "1 < length ngram"
    and "0 < counter_get (cuentasContexto (KneserNeySmoothing_init c n d)) (butlast ngram)"
  shows "\<exists>lowerOrderProb.
    fst (obtenerProbabilidad (KneserNeySmoothing_init c n d) (tl ngram)) = Inr lowerOrderProb \<and>
    fst (obtenerProbabilidad (KneserNeySmoothing_init c n d) ngram) =
      Inr (max (of_int (counter_get
                  (fst (dd_getitem (ngramCounts (KneserNeySmoothing_init c n d))
                         (int (length ngram)))) ngram) - d) 0
             / of_int (counter_get (cuentasContexto (KneserNeySmoothing_init c n d))
                         (butlast ngram))
           + d * lowerOrderProb
             / of_int (counter_get (cuentasContexto (KneserNeySmoothing_init c n d))
                         (butlast ngram)))"
proof -
  have "counter_get (cuentasContexto (KneserNeySmoothing_init c n d)) (butlast ngram) \<noteq> 0"
    using assms(2) by simp
  from interpolation_step [OF init_inv_consulta assms(1) this] show ?thesis
    by (simp only: obtenerProbabilidad_def init_fields)
qed

theorem interpolation_formula_witness:
  "1 < length [''el'', ''gato''] \<and>
   0 < counter_get (cuentasContexto (KneserNeySmoothing_init corpus 2 (3 / 4)))
         (butlast [''el'', ''gato'']) \<and>
   (\<exists>lowerOrderProb.
      fst (obtenerProbabilidad (KneserNeySmoothing_init corpus 2 (3 / 4)) (tl [''el'', ''gato'']))
        = Inr lowerOrderProb \<and>
      fst (obtenerProbabilidad (KneserNeySmoothing_init corpus 2 (3 / 4)) [''el'', ''gato'']) =
        Inr (max (of_int (counter_get
                    (fst (dd_getitem (ngramCounts (KneserNeySmoothing_init corpus 2 (3 / 4)))
                           (int (length [''el'', ''gato''])))) [''el'', ''gato'']) - 3 / 4) 0
               / of_int (counter_get (cuentasContexto (KneserNeySmoothing_init corpus 2 (3 / 4)))
                           (butlast [''el'', ''gato'']))
             + 3 / 4 * lowerOrderProb
               / of_int (counter_get (cuentasContexto (KneserNeySmoothing_init corpus 2 (3 / 4)))
                           (butlast [''el'', ''gato'']))))"
proof -
  have h1: "1 < length [''el'', ''gato'']"
    by simp
  have h2: "0 < counter_get (cuentasContexto (KneserNeySmoothing_init corpus 2 (3 / 4)))
         (butlast [''el'', ''gato''])"
    by code_simp
  from interpolation_formula [OF h1 h2] h1 h2 show ?thesis
    by blast
qed

text \<open>
  C4. After construction the engine is read-only: after any sequence of \<open>probability\<close>
  and \<open>sentenceProbability\<close> queries, on tuples of any length, every attribute of the
  engine (the four count tables, the totals, the order and the discount) is what it was.
  The read \<open>self.ngramCounts[len(ngram)]\<close> would store an empty counter under a new
  length, but it is reached only with the length equal to the order, which construction
  has stored.
\<close>

theorem tables_read_only:
  "consultar_todas (KneserNeySmoothing_init c n d) qs = KneserNeySmoothing_init c n d"
  by (rule consultar_todas_state) (rule init_inv_consulta)

theorem tables_read_only_witness:
  "consultar_todas kneserNey
     [Probability [''el'', ''gato''], Probability [''el'', ''gato'', ''come''], Probability [],
      SentenceProbability ''el perro come carne'', Probability [''pez'']] = kneserNey"
  unfolding kneserNey_def by (rule tables_read_only)

text \<open>
  C5, as stated: for every tuple of length at least 2 whose prefix has context count 0,
  \<open>probability\<close> returns the continuation count of the last word over the total number of
  n-grams. It fails on an engine whose corpus has no n-gram of the order: the division
  raises.
\<close>

theorem fallback_raises_without_ngrams:
  "2 \<le> length [''hola'', ''mundo''] \<and>
   counter_get (cuentasContexto (KneserNeySmoothing_init [''hola''] 2 (3 / 4)))
     (butlast [''hola'', ''mundo'']) = 0 \<and>
   fst (obtenerProbabilidad (KneserNeySmoothing_init [''hola''] 2 (3 / 4)) [''hola'', ''mundo''])
     = Inl ZeroDivisionError"
  by code_simp

text \<open>
  C5, amended: on an engine whose total number of n-grams is not 0, for every tuple of
  length at least 2 whose prefix has context count 0, \<open>probability\<close> returns exactly the
  continuation count of the tuple's last word over the total number of n-grams, and
  leaves the engine as it was (no discount formula, no recursion).
\<close>

theorem fallback_is_continuation_probability:
  assumes "2 \<le> length ngram"
    and "counter_get (cuentasContexto self) (butlast ngram) = 0"
    and "totalNgrams self \<noteq> 0"
  shows "obtenerProbabilidad self ngram =
    (Inr (of_int (counter_get (cuentasContinuacion self) [last ngram]) / of_int (totalNgrams self)),
     self)"
  using assms
  by (simp add: obtenerProbabilidad_def probabilidadCondicional_fallback
      probabilidadContinuacion_def truediv_def)

theorem fallback_is_continuation_probability_witness:
  "2 \<le> length [''duerme'', ''come''] \<and>
   counter_get (cuentasContexto kneserNey) (butlast [''duerme'', ''come'']) = 0 \<and>
   totalNgrams kneserNey \<noteq> 0 \<and>
   obtenerProbabilidad kneserNey [''duerme'', ''come''] = (Inr (2 / 13), kneserNey)"
proof -
  have h1: "2 \<le> length [''duerme'', ''come'']"
    by simp
  have h2: "counter_get (cuentasContexto kneserNey) (butlast [''duerme'', ''come'']) = 0"
    by code_simp
  have h3: "totalNgrams kneserNey \<noteq> 0"
    by code_simp
  have v: "of_int (counter_get (cuentasContinuacion kneserNey) [last [''duerme'', ''come'']])
             / of_int (totalNgrams kneserNey) = (2 / 13 :: rat)"
    by code_simp
  from fallback_is_continuation_probability [OF h1 h2 h3] v
  have "obtenerProbabilidad kneserNey [''duerme'', ''come''] = (Inr (2 / 13), kneserNey)"
    by simp
  with h1 h2 h3 show ?thesis
    by blast
qed

text \<open>
  C6, as stated: for every single token, \<open>probability\<close> returns its count over the
  total number of tokens, 0 for a token never observed, and never raises. On the engine of
  the empty corpus the division raises.
\<close>

theorem unigram_raises_on_empty_corpus:
  "fst (obtenerProbabilidad (KneserNeySmoothing_init [] 2 (3 / 4)) [''gato''])
     = Inl ZeroDivisionError"
  by code_simp

text \<open>
  C6, amended: on a constructed engine whose total number of tokens is not 0, for every
  single-token tuple \<open>probability\<close> returns the token's count over the total number of
  tokens, without raising; for a token that is in no sentence of the corpus this is 0.
\<close>

theorem unigram_probability:
  assumes "totalUnigrams (KneserNeySmoothing_init c n d) \<noteq> 0"
  shows "fst (obtenerProbabilidad (KneserNeySmoothing_init c n d) [w]) =
           Inr (of_int (counter_get (unigramCounts (KneserNeySmoothing_init c n d)) w)
                / of_int (totalUnigrams (KneserNeySmoothing_init c n d))) \<and>
         (w \<notin> vocabulario c \<longrightarrow>
            fst (obtenerProbabilidad (KneserNeySmoothing_init c n d) [w]) = Inr 0)"
proof -
  have "counter_get (unigramCounts (KneserNeySmoothing_init c n d)) w = 0"
    if "w \<notin> vocabulario c"
    using that by (intro counter_get_absent) (simp add: init_unigram_keys)
  with assms show ?thesis
    by (simp add: obtenerProbabilidad_def probabilidadCondicional_unigram truediv_def)
qed

theorem unigram_probability_witness:
  "totalUnigrams (KneserNeySmoothing_init corpus 2 (3 / 4)) \<noteq> 0 \<and>
   fst (obtenerProbabilidad (KneserNeySmoothing_init corpus 2 (3 / 4)) [''pez'']) =
     Inr (of_int (counter_get (unigramCounts (KneserNeySmoothing_init corpus 2 (3 / 4))) ''pez'')
          / of_int (totalUnigrams (KneserNeySmoothing_init corpus 2 (3 / 4)))) \<and>
   ''pez'' \<notin> vocabulario corpus \<and>
   fst (obtenerProbabilidad (KneserNeySmoothing_init corpus 2 (3 / 4)) [''pez'']) = Inr 0"
proof -
  have h1: "totalUnigrams (KneserNeySmoothing_init corpus 2 (3 / 4)) \<noteq> 0"
    by code_simp
  have h2: "''pez'' \<notin> vocabulario corpus"
    by code_simp
  from unigram_probability [OF h1, of "''pez''"] h1 h2 show ?thesis
    by blast
qed

text \<open>
  C7. On a constructed engine of order n, at least 1, \<open>sentenceProbability\<close> is the product,
  seeded at 1, of \<open>probability\<close> over all contiguous windows of length n of the sentence's
  whitespace tokens (an exception of a window is the exception of the product); a sentence
  with fewer than n tokens gives exactly 1. With an order below 1 the code forms no window
  and gives 1.
\<close>

theorem sentence_probability_is_product:
  "(1 \<le> n \<longrightarrow>
      fst (generarProbabilidadOracion (KneserNeySmoothing_init c n d) oracion) =
        producto (map (\<lambda>w. fst (obtenerProbabilidad (KneserNeySmoothing_init c n d) w))
                      (ventanas (nat n) (str_split oracion)))) \<and>
   (int (length (str_split oracion)) < n \<longrightarrow>
      fst (generarProbabilidadOracion (KneserNeySmoothing_init c n d) oracion) = Inr 1) \<and>
   (n < 1 \<longrightarrow>
      fst (generarProbabilidadOracion (KneserNeySmoothing_init c n d) oracion) = Inr 1)"
proof -
  let ?e = "KneserNeySmoothing_init c n d"
  have prod: "fst (generarProbabilidadOracion ?e oracion) =
      producto (map (\<lambda>w. fst (obtenerProbabilidad ?e w)) (ngrams_of n (str_split oracion)))"
    by (simp add: generarProbabilidadOracion_def init_fields
        multiplicar_producto [OF init_inv_consulta] split: sum.splits)
  have windows: "fst (generarProbabilidadOracion ?e oracion) =
      producto (map (\<lambda>w. fst (obtenerProbabilidad ?e w)) (ventanas (nat n) (str_split oracion)))"
    if "1 \<le> n"
    using that by (simp add: prod ngrams_of_ventanas)
  have short: "fst (generarProbabilidadOracion ?e oracion) = Inr 1"
    if "int (length (str_split oracion)) < n"
    using that by (simp add: prod ngrams_of_short)
  have none: "fst (generarProbabilidadOracion ?e oracion) = Inr 1"
    if "n < 1"
    using that by (simp add: prod ngrams_of_nonpos)
  from windows short none show ?thesis
    by blast
qed

theorem sentence_probability_is_product_witness:
  "(1 :: int) \<le> 2 \<and>
   fst (generarProbabilidadOracion (KneserNeySmoothing_init corpus 2 (3 / 4))
          ''el perro come carne'') =
     producto (map (\<lambda>w. fst (obtenerProbabilidad (KneserNeySmoothing_init corpus 2 (3 / 4)) w))
                   (ventanas (nat 2) (str_split ''el perro come carne''))) \<and>
   int (length (str_split ''gato'')) < 2 \<and>
   fst (generarProbabilidadOracion (KneserNeySmoothing_init corpus 2 (3 / 4)) ''gato'') = Inr 1 \<and>
   (0 :: int) < 1 \<and>
   fst (generarProbabilidadOracion (KneserNeySmoothing_init corpus 0 (3 / 4)) ''gato'') = Inr 1"
proof -
  have h1: "(1 :: int) \<le> 2"
    by simp
  have h2: "int (length (str_split ''gato'')) < 2"
    by code_simp
  have h3: "(0 :: int) < 1"
    by simp
  from sentence_probability_is_product [of 2 corpus "3 / 4" "''el perro come carne''"]
    sentence_probability_is_product [of 2 corpus "3 / 4" "''gato''"]
    sentence_probability_is_product [of 0 corpus "3 / 4" "''gato''"]
    h1 h2 h3
  show ?thesis
    by blast
qed

text \<open>
  C8. For every tuple of length k, at least 1, the recursive computation terminates, and
  k - 1 nested recursive calls are enough: each call is on the tuple without its first
  token. The function itself is total by the measure "length of the tuple".
\<close>

theorem recursion_depth_bounded:
  assumes "1 \<le> length ngram"
  shows "probabilidadCondicional_limit (length ngram - 1) self ngram
           = Some (probabilidadCondicional self ngram)"
  using assms by (intro limit_enough) simp

theorem recursion_depth_bounded_witness:
  "1 \<le> length [''el'', ''gato''] \<and>
   probabilidadCondicional_limit (length [''el'', ''gato''] - 1) kneserNey [''el'', ''gato'']
     = Some (probabilidadCondicional kneserNey [''el'', ''gato''])"
proof -
  have h: "1 \<le> length [''el'', ''gato'']"
    by simp
  from recursion_depth_bounded [OF h] h show ?thesis
    by blast
qed

text \<open>
  C9. On the demonstration instance (order 2, discount 0.75, the five sentences), the
  probability of \<open>("el", "gato")\<close> is exactly 2/3.
\<close>

theorem probability_el_gato:
  "fst (obtenerProbabilidad kneserNey [''el'', ''gato'']) = Inr (2 / 3)"
  by code_simp

text \<open>
  C10. On an engine with a positive number of tokens and of n-grams, \<open>probability\<close> returns
  a value for every tuple of length at least 1; for the empty tuple it raises IndexError.
\<close>

theorem probability_defined_on_nonempty:
  assumes "0 < totalUnigrams self" and "0 < totalNgrams self"
  shows "(ngram \<noteq> [] \<longrightarrow> (\<exists>p. fst (obtenerProbabilidad self ngram) = Inr p)) \<and>
         fst (obtenerProbabilidad self []) = Inl IndexError"
  using assms trained_returns [of self ngram]
  by (simp add: obtenerProbabilidad_def probabilidadCondicional_empty)

theorem probability_defined_on_nonempty_witness:
  "0 < totalUnigrams kneserNey \<and> 0 < totalNgrams kneserNey \<and>
   [''el'', ''gato''] \<noteq> [] \<and>
   (\<exists>p. fst (obtenerProbabilidad kneserNey [''el'', ''gato'']) = Inr p) \<and>
   fst (obtenerProbabilidad kneserNey []) = Inl IndexError"
proof -
  have h1: "0 < totalUnigrams kneserNey"
    by code_simp
  have h2: "0 < totalNgrams kneserNey"
    by code_simp
  from probability_defined_on_nonempty [OF h1 h2, of "[''el'', ''gato'']"] h1 h2
  show ?thesis
    by blast
qed

end
